theory Spec2Isabelle
  imports Complex_Main "HOL-Library.AList"
begin

section \<open>Data model of \<open>multi_camera_processor.py\<close>\<close>

text \<open>
  The module keeps its state in global dictionaries that are mutated by one worker thread
  per camera (\<open>process_camera\<close>) and by one scheduler thread (\<open>update_traffic_signals\<close>).
  The embedding threads these globals through every operation as one record.

  \<^item> A lane identifier is whatever Python value is used as a dictionary key: a \<open>str\<close>
    for every camera, and \<open>None\<close> for the \<open>cam_id\<close> entry of an override that was
    never set. It is modelled as \<open>string option\<close>, \<open>None\<close> being Python's \<open>None\<close>.
  \<^item> \<open>traffic_lights\<close> is a plain dict whose order is never observed: a map.
  \<^item> \<open>vehicle_counts\<close> is iterated (\<open>keys()\<close>, \<open>max\<close>), so its insertion order
    matters: an association list, updated in place or extended at the end.
  \<^item> \<open>lane_priority\<close>, \<open>vehicle_last_positions\<close> and \<open>violated_ids\<close> are
    \<open>defaultdict\<close>s that are only ever read and written at a key: total functions whose
    value at an untouched key is the default (\<open>0\<close>, the empty dict, the empty set).
  \<^item> \<open>time.time()\<close> is a parameter of the operation that reads the clock.
  \<^item> \<open>violations\<close> is the list of calls of the external \<open>log_violation\<close> that
    returned normally, in order: the violation records that were created.
\<close>

datatype color = RED | GREEN

type_synonym cam = "string option"

datatype error = DetectorError | TrackerError | ValueError | ZeroDivisionError | SinkError

record override =
  active :: bool
  cam_id :: cam
  timestamp :: real

type_synonym box = "int \<times> int \<times> int \<times> int"

record tracked_object =
  obj_id :: int
  bbox :: box

record state =
  vehicle_counts :: "(cam \<times> int) list"
  traffic_lights :: "cam \<rightharpoonup> color"
  vehicle_last_positions :: "cam \<Rightarrow> (int \<rightharpoonup> int)"
  violated_ids :: "cam \<Rightarrow> int set"
  lane_cycle :: "cam list"
  current_index :: int
  lane_priority :: "cam \<Rightarrow> int"
  emergency_override :: override
  violations :: "(cam \<times> int) list"

definition LOW_TRAFFIC_THRESHOLD :: int where
  "LOW_TRAFFIC_THRESHOLD = 2"

definition WAIT_LIMIT :: int where
  "WAIT_LIMIT = 3"

definition EMERGENCY_HOLD_TIME :: int where
  "EMERGENCY_HOLD_TIME = 20"

definition initial_state :: state where
  "initial_state =
     \<lparr>vehicle_counts = [], traffic_lights = Map.empty,
      vehicle_last_positions = (\<lambda>_. Map.empty), violated_ids = (\<lambda>_. {}),
      lane_cycle = [], current_index = 0, lane_priority = (\<lambda>_. 0),
      emergency_override = \<lparr>active = False, cam_id = None, timestamp = 0\<rparr>,
      violations = []\<rparr>"

section \<open>Emergency activation: \<open>override_signal\<close>\<close>

text \<open>\<open>for cam in traffic_lights: traffic_lights[cam] = "RED"\<close>\<close>

definition all_red :: "(cam \<rightharpoonup> color) \<Rightarrow> (cam \<rightharpoonup> color)" where
  "all_red lights = (\<lambda>c. map_option (\<lambda>_. RED) (lights c))"

definition override_signal :: "cam \<Rightarrow> real \<Rightarrow> state \<Rightarrow> state" where
  "override_signal c t s =
     s\<lparr>traffic_lights := (all_red (traffic_lights s))(c \<mapsto> GREEN),
       emergency_override :=
         (emergency_override s)\<lparr>active := True, cam_id := c, timestamp := t\<rparr>\<rparr>"

section \<open>The scheduler: one iteration of \<open>update_traffic_signals\<close>\<close>

text \<open>Lines 208-212: the lane cycle is rebuilt when it is empty or names another lane set.\<close>

definition rebuild_lane_cycle :: "cam list \<Rightarrow> state \<Rightarrow> state" where
  "rebuild_lane_cycle lanes s =
     (if lane_cycle s = [] \<or> set (lane_cycle s) \<noteq> set lanes
      then s\<lparr>lane_cycle := lanes, current_index := 0, lane_priority := (\<lambda>_. 0)\<rparr>
      else s)"

text \<open>
  \<open>max(counts, key=counts.get)\<close> on a non-empty dict: the keys are scanned in insertion
  order and a later key replaces the best one only when its count is strictly greater.
\<close>

fun max_key :: "cam \<times> int \<Rightarrow> (cam \<times> int) list \<Rightarrow> cam" where
  "max_key best [] = fst best"
| "max_key best (kv # rest) = max_key (if snd best < snd kv then kv else best) rest"

definition py_max_key :: "(cam \<times> int) list \<Rightarrow> error + cam" where
  "py_max_key counts =
     (case counts of [] \<Rightarrow> Inl ValueError | kv # rest \<Rightarrow> Inr (max_key kv rest))"

text \<open>Lines 238-242: the priority counters after a fairness or density selection.\<close>

fun update_priority :: "cam list \<Rightarrow> cam \<Rightarrow> (cam \<Rightarrow> int) \<Rightarrow> (cam \<Rightarrow> int)" where
  "update_priority [] sel p = p"
| "update_priority (c # cs) sel p =
     update_priority cs sel (if c = sel then p(c := 0) else p(c := p c + 1))"

text \<open>Lines 245-246: the colours of the lanes that published an occupancy count.\<close>

fun set_lights :: "cam list \<Rightarrow> cam \<Rightarrow> (cam \<rightharpoonup> color) \<Rightarrow> (cam \<rightharpoonup> color)" where
  "set_lights [] sel lights = lights"
| "set_lights (c # cs) sel lights =
     set_lights cs sel (lights(c \<mapsto> (if c = sel then GREEN else RED)))"

text \<open>
  Python's truth value of a lane identifier, as tested by \<open>if forced_green:\<close>: \<open>None\<close>
  and the empty string are false.
\<close>

definition truthy :: "cam \<Rightarrow> bool" where
  "truthy c = (c \<noteq> None \<and> c \<noteq> Some [])"

text \<open>Lines 223-227: the first lane, in scan order, whose counter reached the limit.\<close>

definition forced_green :: "cam list \<Rightarrow> (cam \<Rightarrow> int) \<Rightarrow> cam" where
  "forced_green lanes p =
     (case find (\<lambda>c. WAIT_LIMIT \<le> p c) lanes of None \<Rightarrow> None | Some c \<Rightarrow> c)"

text \<open>
  Lines 215-242: the selected lane, with the counters and the round-robin index updated.
  \<open>lane_cycle[current_index % len(lane_cycle)]\<close> divides by zero on an empty cycle.
\<close>

definition choose_lane :: "state \<Rightarrow> error + cam \<times> state" where
  "choose_lane s =
     (let counts = vehicle_counts s; lanes = map fst counts in
      if list_all (\<lambda>n. n < LOW_TRAFFIC_THRESHOLD) (map snd counts) then
        (if lane_cycle s = [] then Inl ZeroDivisionError
         else
           let selected_cam =
                 lane_cycle s ! nat (current_index s mod int (length (lane_cycle s)))
           in Inr (selected_cam,
                   s\<lparr>current_index := current_index s + 1,
                     lane_priority := (lane_priority s)(selected_cam := 0)\<rparr>))
      else
        let fg = forced_green lanes (lane_priority s)
        in case (if truthy fg then Inr fg else py_max_key counts) of
             Inl e \<Rightarrow> Inl e
           | Inr selected_cam \<Rightarrow>
               Inr (selected_cam,
                    s\<lparr>lane_priority :=
                        update_priority lanes selected_cam (lane_priority s)\<rparr>))"

text \<open>Lines 201-246: what an iteration does when no emergency hold is in force.\<close>

definition normal_selection :: "state \<Rightarrow> error + state" where
  "normal_selection s =
     (if vehicle_counts s = [] then Inr s
      else
        let lanes = map fst (vehicle_counts s);
            s1 = rebuild_lane_cycle lanes s
        in case choose_lane s1 of
             Inl e \<Rightarrow> Inl e
           | Inr (selected_cam, s2) \<Rightarrow>
               Inr (s2\<lparr>traffic_lights := set_lights lanes selected_cam (traffic_lights s2)\<rparr>))"

text \<open>
  One iteration of the \<open>while True\<close> loop, the clock reading \<open>t\<close> being the value of
  \<open>time.time()\<close>. The \<open>time.sleep\<close> that ends every branch only delays the next
  iteration, whose clock reading is the argument of the next step.
\<close>

definition update_traffic_signals_step :: "real \<Rightarrow> state \<Rightarrow> error + state" where
  "update_traffic_signals_step t s =
     (let eo = emergency_override s in
      if active eo \<and> t - timestamp eo < real_of_int EMERGENCY_HOLD_TIME then
        Inr (s\<lparr>traffic_lights := (all_red (traffic_lights s))(cam_id eo \<mapsto> GREEN)\<rparr>)
      else if active eo then
        normal_selection (s\<lparr>emergency_override := eo\<lparr>active := False, cam_id := None\<rparr>\<rparr>)
      else normal_selection s)"

text \<open>The loop itself never returns; its first iterations, one per clock reading.\<close>

fun update_traffic_signals :: "real list \<Rightarrow> state \<Rightarrow> error + state" where
  "update_traffic_signals [] s = Inr s"
| "update_traffic_signals (t # ts) s =
     (case update_traffic_signals_step t s of
        Inl e \<Rightarrow> Inl e
      | Inr s' \<Rightarrow> update_traffic_signals ts s')"

section \<open>The camera worker: \<open>process_camera\<close>\<close>

text \<open>
  What the collaborators answer on one frame. \<open>detector\<close> is the outcome of lines
  86-92 (\<open>model(frame)\<close> raises, or the rows of \<open>detections\<close>), \<open>tracker_update\<close>
  that of \<open>trackers[cam_id].update(dets)\<close> (an exception or the rows of the tracker),
  \<open>imwrite\<close> and \<open>log_violation\<close> the outcome of the two sink calls for a vehicle
  identifier (\<open>cv2.imwrite\<close> reports most failures by returning \<open>False\<close>, which the
  worker ignores), \<open>clock\<close> the value of \<open>time.time()\<close>.
\<close>

record frame_input =
  clock :: real
  emergency :: bool
  detector :: "error + real list list"
  tracker_update :: "error + real list list"
  frame_height :: nat
  imwrite :: "int \<Rightarrow> error + bool"
  log_violation :: "int \<Rightarrow> error option"

text \<open>Python's \<open>int(x)\<close> on a float: truncation towards zero.\<close>

definition py_int :: "real \<Rightarrow> int" where
  "py_int x = (if 0 \<le> x then \<lfloor>x\<rfloor> else \<lceil>x\<rceil>)"

text \<open>
  Lines 104-111: rows shorter than 5 are skipped, a row of exactly 5 is unpacked, and
  unpacking a longer row raises \<open>ValueError\<close> inside the \<open>try\<close>.
\<close>

fun to_tracked_objects :: "real list list \<Rightarrow> error + tracked_object list" where
  "to_tracked_objects [] = Inr []"
| "to_tracked_objects (trk # rest) =
     (if 5 \<le> length trk then
        (case trk of
           [x1, y1, x2, y2, track_id] \<Rightarrow>
             (case to_tracked_objects rest of
                Inl e \<Rightarrow> Inl e
              | Inr objs \<Rightarrow>
                  Inr (\<lparr>obj_id = py_int track_id,
                        bbox = (py_int x1, py_int y1, py_int x2, py_int y2)\<rparr> # objs))
         | _ \<Rightarrow> Inl ValueError)
      else to_tracked_objects rest)"

text \<open>
  Lines 95-114: the tracked objects of a frame with these detections; every exception
  of the \<open>try\<close> block gives the empty list.
\<close>

definition tracked_objects_of :: "real list list \<Rightarrow> frame_input \<Rightarrow> tracked_object list" where
  "tracked_objects_of dets f =
     (if dets = [] then []
      else case tracker_update f of
             Inl e \<Rightarrow> []
           | Inr tracked \<Rightarrow>
               (case to_tracked_objects tracked of Inl e \<Rightarrow> [] | Inr objs \<Rightarrow> objs))"

text \<open>Lines 122-123: \<open>current_y\<close> is the bottom edge \<open>y2\<close> of the bounding box.\<close>

definition current_y :: "tracked_object \<Rightarrow> int" where
  "current_y obj = (case bbox obj of (x1, y1, x2, y2) \<Rightarrow> y2)"

text \<open>Line 131: \<open>traffic_lights.get(cam_id, "RED")\<close>.\<close>

definition signal_color :: "state \<Rightarrow> cam \<Rightarrow> color" where
  "signal_color s c = (case traffic_lights s c of None \<Rightarrow> RED | Some col \<Rightarrow> col)"

text \<open>
  Lines 126, 130 and 131: the test that guards the violation block, on the state in
  which the object is met. \<open>last_y\<close> is read before line 127 overwrites it.
\<close>

definition violation_signaled :: "state \<Rightarrow> cam \<Rightarrow> int \<Rightarrow> tracked_object \<Rightarrow> bool" where
  "violation_signaled s c crossing_y obj =
     (let vehicle_id = obj_id obj;
          last_y = (case vehicle_last_positions s c vehicle_id of
                      None \<Rightarrow> current_y obj | Some y \<Rightarrow> y)
      in last_y < crossing_y \<and> crossing_y \<le> current_y obj \<and>
         signal_color s c = RED \<and>
         vehicle_id \<notin> violated_ids s c)"

text \<open>
  Lines 121-140, one tracked object. The result is the exception that escapes, if any,
  and the globals as they are left.
\<close>

definition process_object ::
  "cam \<Rightarrow> frame_input \<Rightarrow> int \<Rightarrow> state \<Rightarrow> tracked_object \<Rightarrow> error option \<times> state" where
  "process_object c f crossing_y s obj =
     (let vehicle_id = obj_id obj;
          s1 = s\<lparr>vehicle_last_positions :=
                   (vehicle_last_positions s)
                     (c := (vehicle_last_positions s c)(vehicle_id \<mapsto> current_y obj))\<rparr>
      in if violation_signaled s c crossing_y obj then
           (case imwrite f vehicle_id of
              Inl e \<Rightarrow> (Some e, s1)
            | Inr _ \<Rightarrow>
                (case log_violation f vehicle_id of
                   Some e \<Rightarrow> (Some e, s1)
                 | None \<Rightarrow>
                     (None,
                      s1\<lparr>violations := violations s1 @ [(c, vehicle_id)],
                         violated_ids :=
                           (violated_ids s1)(c := insert vehicle_id (violated_ids s1 c))\<rparr>)))
         else (None, s1))"

fun process_objects ::
  "cam \<Rightarrow> frame_input \<Rightarrow> int \<Rightarrow> tracked_object list \<Rightarrow> state \<Rightarrow> error option \<times> state" where
  "process_objects c f crossing_y [] s = (None, s)"
| "process_objects c f crossing_y (obj # objs) s =
     (case process_object c f crossing_y s obj of
        (Some e, s') \<Rightarrow> (Some e, s')
      | (None, s') \<Rightarrow> process_objects c f crossing_y objs s')"

text \<open>
  \<open>int(CROSSING_LINE_Y_RATIO * frame_height)\<close>: the double nearest to 0.8 lies just above
  0.8, so for the height of an image the truncated product is \<open>4 * h div 5\<close>.
\<close>

definition crossing_line :: "nat \<Rightarrow> int" where
  "crossing_line h = int (4 * h div 5)"

text \<open>
  Lines 81-148: one frame of the worker of lane \<open>c\<close>. The calls after line 148 (speed
  overlay, lane assignment, drawing) and the statistics counter of lines 143-145 write
  none of the globals above and are left out; they, \<open>detect_emergency_vehicle\<close> and
  \<open>estimator.get_speed\<close> are taken to return normally.
\<close>

definition process_frame :: "cam \<Rightarrow> frame_input \<Rightarrow> state \<Rightarrow> error option \<times> state" where
  "process_frame c f s =
     (let s1 = (if emergency f then override_signal c (clock f) s else s)
      in case detector f of
           Inl e \<Rightarrow> (Some e, s1)
         | Inr dets \<Rightarrow>
             (let tracked_objects = tracked_objects_of dets f
              in case process_objects c f (crossing_line (frame_height f)) tracked_objects s1 of
                   (Some e, s2) \<Rightarrow> (Some e, s2)
                 | (None, s2) \<Rightarrow>
                     (None,
                      s2\<lparr>vehicle_counts :=
                           AList.update c (int (length tracked_objects))
                             (vehicle_counts s2)\<rparr>)))"


section \<open>Interleavings of the workers and the scheduler\<close>

text \<open>
  The threads share the globals. A run is a sequence of events, each a frame of some
  worker, the end of some worker's source, or an iteration of the scheduler.
\<close>

datatype event = Frame cam frame_input | Exhausted cam | Tick real

fun step :: "event \<Rightarrow> state \<Rightarrow> state" where
  "step (Frame c f) s = snd (process_frame c f s)"
| "step (Exhausted c) s = s\<lparr>vehicle_counts := AList.update c 0 (vehicle_counts s)\<rparr>"
| "step (Tick t) s = (case update_traffic_signals_step t s of Inl e \<Rightarrow> s | Inr s' \<Rightarrow> s')"

fun run :: "event list \<Rightarrow> state \<Rightarrow> state" where
  "run [] s = s"
| "run (e # es) s = run es (step e s)"

section \<open>The status query of \<open>main.py\<close>\<close>

text \<open>
  \<open>main.py\<close> defines a dictionary \<open>emergency_override\<close> of its own (lines 25-29); it
  imports only the three start functions of the processor. The program's globals are
  those of the processor and this dictionary; no statement of either module writes it.
\<close>

record program =
  processor :: state
  main_emergency_override :: override

definition initial_program :: program where
  "initial_program =
     \<lparr>processor = initial_state,
      main_emergency_override = \<lparr>active = False, cam_id = None, timestamp = 0\<rparr>\<rparr>"

definition run_program :: "event list \<Rightarrow> program \<Rightarrow> program" where
  "run_program es p = p\<lparr>processor := run es (processor p)\<rparr>"

record status =
  status_active :: bool
  status_cam_id :: cam
  remaining_time :: int

definition get_emergency_status :: "real \<Rightarrow> program \<Rightarrow> status" where
  "get_emergency_status t p =
     (let eo = main_emergency_override p in
      \<lparr>status_active = active eo,
       status_cam_id = cam_id eo,
       remaining_time =
         (if active eo then max 0 (EMERGENCY_HOLD_TIME - py_int (t - timestamp eo)) else 0)\<rparr>)"

section \<open>Predicates of the statements\<close>

text \<open>
  \<open>one_green lights g\<close>: in the colour table \<open>lights\<close> lane \<open>g\<close> is GREEN and every
  other lane of the table is RED.
\<close>

definition one_green :: "(cam \<rightharpoonup> color) \<Rightarrow> cam \<Rightarrow> bool" where
  "one_green lights g \<longleftrightarrow>
     lights g = Some GREEN \<and> (\<forall>c \<in> dom lights. c \<noteq> g \<longrightarrow> lights c = Some RED)"

text \<open>The test of line 186-188: an override is active and its hold time has not elapsed.\<close>

definition hold_in_force :: "real \<Rightarrow> state \<Rightarrow> bool" where
  "hold_in_force t s \<longleftrightarrow>
     active (emergency_override s) \<and>
     t - timestamp (emergency_override s) < real_of_int EMERGENCY_HOLD_TIME"

text \<open>Lines 197-198: the override as the scheduler leaves it when the hold has elapsed.\<close>

definition clear_override :: "state \<Rightarrow> state" where
  "clear_override s =
     s\<lparr>emergency_override := (emergency_override s)\<lparr>active := False, cam_id := None\<rparr>\<rparr>"

text \<open>
  The violation records are pairwise different, and every recorded vehicle is in the
  set of flagged identifiers of its lane.
\<close>

definition flagged_log :: "state \<Rightarrow> bool" where
  "flagged_log s \<longleftrightarrow>
     distinct (violations s) \<and> (\<forall>(c, v) \<in> set (violations s). v \<in> violated_ids s c)"

section \<open>Concrete frames, states and runs\<close>

text \<open>
  Frames of height 100, whose crossing line is at 80: a frame without detections, a frame
  with two tracked vehicles, a frame with vehicle 7 whose bottom edge is at \<open>y\<close>, and a
  frame on which an emergency vehicle is seen and the detector then raises.
\<close>

definition empty_frame :: frame_input where
  "empty_frame =
     \<lparr>clock = 0, emergency = False, detector = Inr [], tracker_update = Inr [],
      frame_height = 100, imwrite = (\<lambda>_. Inr True), log_violation = (\<lambda>_. None)\<rparr>"

definition two_vehicle_frame :: frame_input where
  "two_vehicle_frame =
     empty_frame\<lparr>detector := Inr [[0, 0, 10, 10, 0.9], [20, 0, 30, 10, 0.8]],
                 tracker_update := Inr [[0, 0, 10, 10, 1], [20, 0, 30, 10, 2]]\<rparr>"

definition vehicle_frame :: "real \<Rightarrow> frame_input" where
  "vehicle_frame y =
     empty_frame\<lparr>detector := Inr [[0, 0, 10, y, 0.9]],
                 tracker_update := Inr [[0, 0, 10, y, 7]]\<rparr>"

definition failed_emergency_frame :: frame_input where
  "failed_emergency_frame =
     empty_frame\<lparr>clock := 100, emergency := True, detector := Inl DetectorError\<rparr>"

text \<open>
  Two lanes \<open>A\<close> and \<open>B\<close>; \<open>B\<close> has waited three rounds. In \<open>busy_state\<close> lane
  \<open>A\<close> is above the low-traffic threshold, in \<open>calm_state\<close> no lane is, and in
  \<open>hold_state\<close> an emergency on \<open>B\<close> was activated at time 100.
\<close>

definition busy_state :: state where
  "busy_state =
     initial_state\<lparr>vehicle_counts := [(Some ''A'', 5), (Some ''B'', 1)],
                   traffic_lights := [Some ''A'' \<mapsto> GREEN, Some ''B'' \<mapsto> RED],
                   lane_cycle := [Some ''A'', Some ''B''],
                   lane_priority := (\<lambda>_. 0)(Some ''B'' := 3)\<rparr>"

definition calm_state :: state where
  "calm_state = busy_state\<lparr>vehicle_counts := [(Some ''A'', 0), (Some ''B'', 1)]\<rparr>"

definition hold_state :: state where
  "hold_state = override_signal (Some ''B'') 100 busy_state"

text \<open>
  A run from the initial state: \<open>A\<close> publishes 2 vehicles and \<open>B\<close> none, three
  scheduler iterations pick \<open>A\<close> by density, then \<open>A\<close> publishes 0.
\<close>

definition fairness_events :: "event list" where
  "fairness_events =
     [Frame (Some ''A'') two_vehicle_frame, Frame (Some ''B'') empty_frame,
      Tick 0, Tick 10, Tick 20, Frame (Some ''A'') empty_frame]"

text \<open>A run from the initial state after which both lanes have published 0.\<close>

definition low_traffic_events :: "event list" where
  "low_traffic_events = [Frame (Some ''A'') empty_frame, Frame (Some ''B'') empty_frame]"

text \<open>Vehicle 7 crosses the line of lane \<open>A\<close>, goes back and crosses again.\<close>

definition repeat_crossing_events :: "event list" where
  "repeat_crossing_events =
     [Frame (Some ''A'') (vehicle_frame 10), Frame (Some ''A'') (vehicle_frame 90),
      Frame (Some ''A'') (vehicle_frame 10), Frame (Some ''A'') (vehicle_frame 90)]"

text \<open>
  The state after vehicle 7 was seen in lane \<open>A\<close> with its bottom edge at 10, short of
  the line at 80; the vehicle as it is tracked next, with its bottom edge at 90; and
  frames on which the violation sink or the tracker raises.
\<close>

definition seen_below_state :: state where
  "seen_below_state = run [Frame (Some ''A'') (vehicle_frame 10)] initial_state"

definition crossing_vehicle :: tracked_object where
  "crossing_vehicle = \<lparr>obj_id = 7, bbox = (0, 0, 10, 90)\<rparr>"



definition emergency_frame :: frame_input where
  "emergency_frame = empty_frame\<lparr>clock := 100, emergency := True\<rparr>"

section \<open>The scheduler: auxiliary facts\<close>

lemma set_lights_apply:
  "set_lights lanes sel lights c =
     (if c \<in> set lanes then Some (if c = sel then GREEN else RED) else lights c)"
  by (induction lanes arbitrary: lights) auto

lemma update_priority_notin:
  "c \<notin> set lanes \<Longrightarrow> update_priority lanes sel p c = p c"
  by (induction lanes arbitrary: p) auto

lemma update_priority_in:
  "distinct lanes \<Longrightarrow> c \<in> set lanes \<Longrightarrow>
   update_priority lanes sel p c = (if c = sel then 0 else p c + 1)"
  by (induction lanes arbitrary: p) (auto simp: update_priority_notin)

lemma max_key_mem: "max_key best rest \<in> fst ` set (best # rest)"
  by (induction rest arbitrary: best) auto

lemma find_mem: "find P xs = Some x \<Longrightarrow> x \<in> set xs \<and> P x"
  by (induction xs) (auto split: if_splits)

lemma forced_green_mem:
  "truthy (forced_green lanes p) \<Longrightarrow> forced_green lanes p \<in> set lanes"
  by (auto simp: forced_green_def truthy_def dest: find_mem split: option.splits)

lemma mod_index_less:
  "xs \<noteq> [] \<Longrightarrow> nat (i mod int (length xs)) < length xs"
  by (simp add: nat_less_iff)

lemma rebuild_fields [simp]:
  "vehicle_counts (rebuild_lane_cycle lanes s) = vehicle_counts s"
  "traffic_lights (rebuild_lane_cycle lanes s) = traffic_lights s"
  "emergency_override (rebuild_lane_cycle lanes s) = emergency_override s"
  "violations (rebuild_lane_cycle lanes s) = violations s"
  "violated_ids (rebuild_lane_cycle lanes s) = violated_ids s"
  "vehicle_last_positions (rebuild_lane_cycle lanes s) = vehicle_last_positions s"
  by (simp_all add: rebuild_lane_cycle_def)

lemma rebuild_cycle:
  "lanes \<noteq> [] \<Longrightarrow> lane_cycle (rebuild_lane_cycle lanes s) \<noteq> [] \<and>
     set (lane_cycle (rebuild_lane_cycle lanes s)) = set lanes"
  by (simp add: rebuild_lane_cycle_def)

lemma choose_lane_low:
  assumes "list_all (\<lambda>n. n < LOW_TRAFFIC_THRESHOLD) (map snd (vehicle_counts s))"
    and "lane_cycle s \<noteq> []"
  shows "choose_lane s =
     Inr (lane_cycle s ! nat (current_index s mod int (length (lane_cycle s))),
          s\<lparr>current_index := current_index s + 1,
            lane_priority := (lane_priority s)
               (lane_cycle s ! nat (current_index s mod int (length (lane_cycle s))) := 0)\<rparr>)"
  using assms by (simp add: choose_lane_def Let_def)

lemma choose_lane_high:
  assumes "\<not> list_all (\<lambda>n. n < LOW_TRAFFIC_THRESHOLD) (map snd (vehicle_counts s))"
  obtains sel where "sel \<in> set (map fst (vehicle_counts s))"
    and "choose_lane s =
           Inr (sel, s\<lparr>lane_priority :=
                  update_priority (map fst (vehicle_counts s)) sel (lane_priority s)\<rparr>)"
    and "truthy (forced_green (map fst (vehicle_counts s)) (lane_priority s)) \<Longrightarrow>
           sel = forced_green (map fst (vehicle_counts s)) (lane_priority s)"
proof (cases "truthy (forced_green (map fst (vehicle_counts s)) (lane_priority s))")
  case True
  show ?thesis
  proof (rule that[of "forced_green (map fst (vehicle_counts s)) (lane_priority s)"])
    show "forced_green (map fst (vehicle_counts s)) (lane_priority s)
            \<in> set (map fst (vehicle_counts s))"
      by (rule forced_green_mem[OF True])
    show "choose_lane s =
           Inr (forced_green (map fst (vehicle_counts s)) (lane_priority s),
                s\<lparr>lane_priority :=
                  update_priority (map fst (vehicle_counts s))
                    (forced_green (map fst (vehicle_counts s)) (lane_priority s))
                    (lane_priority s)\<rparr>)"
      using assms True by (simp add: choose_lane_def Let_def)
  qed simp
next
  case False
  from assms obtain kv rest where vc: "vehicle_counts s = kv # rest"
    by (cases "vehicle_counts s") auto
  show ?thesis
  proof (rule that[of "max_key kv rest"])
    show "max_key kv rest \<in> set (map fst (vehicle_counts s))"
      using max_key_mem[of kv rest] vc by simp
    show "choose_lane s =
           Inr (max_key kv rest,
                s\<lparr>lane_priority :=
                  update_priority (map fst (vehicle_counts s)) (max_key kv rest)
                    (lane_priority s)\<rparr>)"
    proof -
      have "py_max_key (vehicle_counts s) = Inr (max_key kv rest)"
        by (simp add: py_max_key_def vc)
      then show ?thesis
        using assms False by (simp add: choose_lane_def Let_def)
    qed
  qed (simp add: False)
qed

lemma normal_selection_empty: "vehicle_counts s = [] \<Longrightarrow> normal_selection s = Inr s"
  by (simp add: normal_selection_def)

lemma normal_selection_low:
  assumes "vehicle_counts s \<noteq> []"
    and "list_all (\<lambda>n. n < LOW_TRAFFIC_THRESHOLD) (map snd (vehicle_counts s))"
  obtains sel s1 where "s1 = rebuild_lane_cycle (map fst (vehicle_counts s)) s"
    and "sel = lane_cycle s1 ! nat (current_index s1 mod int (length (lane_cycle s1)))"
    and "sel \<in> set (map fst (vehicle_counts s))"
    and "normal_selection s =
           Inr (s1\<lparr>current_index := current_index s1 + 1,
                   lane_priority := (lane_priority s1)(sel := 0),
                   traffic_lights :=
                     set_lights (map fst (vehicle_counts s)) sel (traffic_lights s)\<rparr>)"
proof -
  define s1 where "s1 = rebuild_lane_cycle (map fst (vehicle_counts s)) s"
  define sel where "sel = lane_cycle s1 ! nat (current_index s1 mod int (length (lane_cycle s1)))"
  have cyc: "lane_cycle s1 \<noteq> []" "set (lane_cycle s1) = set (map fst (vehicle_counts s))"
    using rebuild_cycle[of "map fst (vehicle_counts s)" s] assms(1) by (simp_all add: s1_def)
  have "sel \<in> set (lane_cycle s1)"
    unfolding sel_def using mod_index_less[OF cyc(1)] by simp
  then have mem: "sel \<in> set (map fst (vehicle_counts s))" using cyc(2) by simp
  have "choose_lane s1 = Inr (sel, s1\<lparr>current_index := current_index s1 + 1,
            lane_priority := (lane_priority s1)(sel := 0)\<rparr>)"
    unfolding sel_def using choose_lane_low[of s1] assms(2) cyc(1) by (simp add: s1_def)
  then have "normal_selection s =
           Inr (s1\<lparr>current_index := current_index s1 + 1,
                   lane_priority := (lane_priority s1)(sel := 0),
                   traffic_lights :=
                     set_lights (map fst (vehicle_counts s)) sel (traffic_lights s)\<rparr>)"
    using assms(1) by (simp add: normal_selection_def Let_def s1_def[symmetric]) (simp add: s1_def)
  with that[OF s1_def sel_def mem] show ?thesis by blast
qed

lemma normal_selection_high:
  assumes "\<not> list_all (\<lambda>n. n < LOW_TRAFFIC_THRESHOLD) (map snd (vehicle_counts s))"
  obtains sel s1 where "s1 = rebuild_lane_cycle (map fst (vehicle_counts s)) s"
    and "sel \<in> set (map fst (vehicle_counts s))"
    and "truthy (forced_green (map fst (vehicle_counts s)) (lane_priority s1)) \<Longrightarrow>
           sel = forced_green (map fst (vehicle_counts s)) (lane_priority s1)"
    and "normal_selection s =
           Inr (s1\<lparr>lane_priority :=
                     update_priority (map fst (vehicle_counts s)) sel (lane_priority s1),
                   traffic_lights :=
                     set_lights (map fst (vehicle_counts s)) sel (traffic_lights s)\<rparr>)"
proof -
  define s1 where "s1 = rebuild_lane_cycle (map fst (vehicle_counts s)) s"
  have ne: "vehicle_counts s \<noteq> []" using assms by auto
  have hi: "\<not> list_all (\<lambda>n. n < LOW_TRAFFIC_THRESHOLD) (map snd (vehicle_counts s1))"
    using assms by (simp add: s1_def)
  from choose_lane_high[OF hi] obtain sel where
    sel: "sel \<in> set (map fst (vehicle_counts s1))"
      "choose_lane s1 = Inr (sel, s1\<lparr>lane_priority :=
                  update_priority (map fst (vehicle_counts s1)) sel (lane_priority s1)\<rparr>)"
      "truthy (forced_green (map fst (vehicle_counts s1)) (lane_priority s1)) \<Longrightarrow>
           sel = forced_green (map fst (vehicle_counts s1)) (lane_priority s1)"
    by blast
  have vc: "vehicle_counts s1 = vehicle_counts s" by (simp add: s1_def)
  have "normal_selection s =
           Inr (s1\<lparr>lane_priority :=
                     update_priority (map fst (vehicle_counts s)) sel (lane_priority s1),
                   traffic_lights :=
                     set_lights (map fst (vehicle_counts s)) sel (traffic_lights s)\<rparr>)"
    using ne sel(2) unfolding vc
    by (simp add: normal_selection_def Let_def s1_def[symmetric]) (simp add: s1_def)
  with that[OF s1_def] sel(1,3) vc show ?thesis by metis
qed

lemma one_green_all_red: "one_green ((all_red lights)(g \<mapsto> GREEN)) g"
  by (auto simp: one_green_def all_red_def)

lemma one_green_set_lights:
  "sel \<in> set lanes \<Longrightarrow> dom lights \<subseteq> set lanes \<Longrightarrow> one_green (set_lights lanes sel lights) sel"
  by (auto simp: one_green_def set_lights_apply dom_def split: if_splits)

lemma step_hold:
  "hold_in_force t s \<Longrightarrow>
   update_traffic_signals_step t s =
     Inr (s\<lparr>traffic_lights :=
            (all_red (traffic_lights s))(cam_id (emergency_override s) \<mapsto> GREEN)\<rparr>)"
  by (simp add: update_traffic_signals_step_def hold_in_force_def Let_def)

lemma step_no_hold:
  "\<not> hold_in_force t s \<Longrightarrow>
   update_traffic_signals_step t s =
     normal_selection (if active (emergency_override s) then clear_override s else s)"
  by (auto simp add: update_traffic_signals_step_def hold_in_force_def Let_def clear_override_def)

lemma normal_selection_summary:
  obtains s' where "normal_selection s = Inr s'"
    and "emergency_override s' = emergency_override s"
    and "violations s' = violations s"
    and "violated_ids s' = violated_ids s"
    and "vehicle_last_positions s' = vehicle_last_positions s"
    and "vehicle_counts s' = vehicle_counts s"
    and "vehicle_counts s = [] \<Longrightarrow> s' = s"
    and "vehicle_counts s \<noteq> [] \<Longrightarrow>
           \<exists>sel \<in> set (map fst (vehicle_counts s)).
             traffic_lights s' = set_lights (map fst (vehicle_counts s)) sel (traffic_lights s)"
proof (cases "vehicle_counts s = []")
  case True
  then show ?thesis using that[of s] by (simp add: normal_selection_empty)
next
  case ne: False
  show ?thesis
  proof (cases "list_all (\<lambda>n. n < LOW_TRAFFIC_THRESHOLD) (map snd (vehicle_counts s))")
    case True
    from normal_selection_low[OF ne True] obtain sel s1 where
      *: "s1 = rebuild_lane_cycle (map fst (vehicle_counts s)) s"
         "sel \<in> set (map fst (vehicle_counts s))"
         "normal_selection s =
           Inr (s1\<lparr>current_index := current_index s1 + 1,
                   lane_priority := (lane_priority s1)(sel := 0),
                   traffic_lights :=
                     set_lights (map fst (vehicle_counts s)) sel (traffic_lights s)\<rparr>)"
      by metis
    show ?thesis
      by (rule that[OF *(3)]) (use ne *(1,2) in auto)
  next
    case False
    from normal_selection_high[OF False] obtain sel s1 where
      *: "s1 = rebuild_lane_cycle (map fst (vehicle_counts s)) s"
         "sel \<in> set (map fst (vehicle_counts s))"
         "normal_selection s =
           Inr (s1\<lparr>lane_priority :=
                     update_priority (map fst (vehicle_counts s)) sel (lane_priority s1),
                   traffic_lights :=
                     set_lights (map fst (vehicle_counts s)) sel (traffic_lights s)\<rparr>)"
      by metis
    show ?thesis
      by (rule that[OF *(3)]) (use ne *(1,2) in auto)
  qed
qed

section \<open>The violation records: auxiliary facts\<close>

lemma process_object_flagged_log:
  "flagged_log s \<Longrightarrow> flagged_log (snd (process_object c f y s obj))"
  by (auto simp: flagged_log_def process_object_def violation_signaled_def Let_def
           split: sum.splits option.splits)

lemma process_objects_flagged_log:
  "flagged_log s \<Longrightarrow> flagged_log (snd (process_objects c f y objs s))"
proof (induction objs arbitrary: s)
  case Nil
  then show ?case by simp
next
  case (Cons obj objs)
  obtain r s' where r: "process_object c f y s obj = (r, s')"
    by (cases "process_object c f y s obj")
  have "flagged_log s'"
    using process_object_flagged_log[OF Cons.prems, of c f y obj] r by simp
  then show ?case
    using Cons.IH[of s'] r by (cases r) simp_all
qed

lemma override_signal_flagged_log:
  "flagged_log s \<Longrightarrow> flagged_log (override_signal c t s)"
  by (simp add: flagged_log_def override_signal_def)

lemma process_frame_flagged_log:
  assumes "flagged_log s"
  shows "flagged_log (snd (process_frame c f s))"
proof -
  define s1 where "s1 = (if emergency f then override_signal c (clock f) s else s)"
  have s1: "flagged_log s1"
    using assms by (simp add: s1_def override_signal_flagged_log)
  show ?thesis
  proof (cases "detector f")
    case (Inl e)
    then show ?thesis using s1 by (simp add: process_frame_def s1_def)
  next
    case (Inr dets)
    obtain r s2 where r:
      "process_objects c f (crossing_line (frame_height f)) (tracked_objects_of dets f) s1 = (r, s2)"
      by (cases "process_objects c f (crossing_line (frame_height f)) (tracked_objects_of dets f) s1")
    have "flagged_log s2"
      using process_objects_flagged_log[OF s1, of c f "crossing_line (frame_height f)"
          "tracked_objects_of dets f"] r by simp
    then show ?thesis
      using Inr r by (cases r) (simp_all add: process_frame_def s1_def[symmetric] flagged_log_def)
  qed
qed

lemma step_flagged_log: "flagged_log s \<Longrightarrow> flagged_log (step e s)"
proof (cases e)
  case (Frame c f)
  assume "flagged_log s"
  then show ?thesis using Frame by (simp add: process_frame_flagged_log)
next
  case (Exhausted c)
  assume "flagged_log s"
  then show ?thesis using Exhausted by (simp add: flagged_log_def)
next
  case (Tick t)
  assume a: "flagged_log s"
  show ?thesis
  proof (cases "hold_in_force t s")
    case True
    then show ?thesis using a Tick by (simp add: step_hold flagged_log_def)
  next
    case False
    define s0 where "s0 = (if active (emergency_override s) then clear_override s else s)"
    obtain s' where s': "normal_selection s0 = Inr s'" "violations s' = violations s0"
      "violated_ids s' = violated_ids s0"
      by (rule normal_selection_summary[of s0]) blast
    have "violations s0 = violations s" "violated_ids s0 = violated_ids s"
      by (simp_all add: s0_def clear_override_def)
    then show ?thesis
      using a Tick False s' by (simp add: step_no_hold s0_def[symmetric] flagged_log_def)
  qed
qed

lemma run_flagged_log: "flagged_log s \<Longrightarrow> flagged_log (run es s)"
  by (induction es arbitrary: s) (simp_all add: step_flagged_log)

lemma distinct_count_le_1: "distinct xs \<Longrightarrow> count_list xs x \<le> 1"
  by (induction xs) auto

section \<open>Unfolding the model on concrete inputs\<close>

lemmas model_defs =
  initial_state_def process_frame_def tracked_objects_of_def process_object_def
  violation_signaled_def signal_color_def current_y_def crossing_line_def override_signal_def
  all_red_def update_traffic_signals_step_def normal_selection_def rebuild_lane_cycle_def
  choose_lane_def forced_green_def truthy_def py_max_key_def py_int_def
  LOW_TRAFFIC_THRESHOLD_def WAIT_LIMIT_def EMERGENCY_HOLD_TIME_def Let_def

section \<open>The status query never reports an override\<close>

lemma status_never_active:
  "get_emergency_status t (run_program es initial_program) =
     \<lparr>status_active = False, status_cam_id = None, remaining_time = 0\<rparr>"
  by (simp add: get_emergency_status_def run_program_def initial_program_def)

section \<open>C1: exactly one green lane\<close>

text \<open>
  Claim C1, as the code has it. After \<open>override_signal c\<close> lane \<open>c\<close> is GREEN and every
  other lane of the colour table is RED. After a scheduler iteration in which an emergency
  hold is in force the override lane is GREEN and every other lane of the table is RED.
  After an iteration without a hold, when at least one lane has published an occupancy
  count and every lane of the colour table is among the lanes that published one, exactly
  one of these lanes is GREEN and every other lane of the table is RED. An iteration
  without a hold and without any published count leaves the colour table as it is.
\<close>

theorem C1_one_green:
  "one_green (traffic_lights (override_signal c t0 s)) c \<and>
   (hold_in_force t s \<longrightarrow>
      (\<exists>s'. update_traffic_signals_step t s = Inr s' \<and>
            one_green (traffic_lights s') (cam_id (emergency_override s)))) \<and>
   (\<not> hold_in_force t s \<and> vehicle_counts s \<noteq> [] \<and>
    dom (traffic_lights s) \<subseteq> set (map fst (vehicle_counts s)) \<longrightarrow>
      (\<exists>s' g. update_traffic_signals_step t s = Inr s' \<and>
              g \<in> set (map fst (vehicle_counts s)) \<and> one_green (traffic_lights s') g)) \<and>
   (\<not> hold_in_force t s \<and> vehicle_counts s = [] \<longrightarrow>
      (\<exists>s'. update_traffic_signals_step t s = Inr s' \<and>
            traffic_lights s' = traffic_lights s))"
proof (intro conjI impI)
  show "one_green (traffic_lights (override_signal c t0 s)) c"
    by (simp add: override_signal_def one_green_all_red)
next
  assume "hold_in_force t s"
  then show "\<exists>s'. update_traffic_signals_step t s = Inr s' \<and>
            one_green (traffic_lights s') (cam_id (emergency_override s))"
    by (simp add: step_hold one_green_all_red)
next
  assume a: "\<not> hold_in_force t s \<and> vehicle_counts s \<noteq> [] \<and>
    dom (traffic_lights s) \<subseteq> set (map fst (vehicle_counts s))"
  define s0 where "s0 = (if active (emergency_override s) then clear_override s else s)"
  have s0: "vehicle_counts s0 = vehicle_counts s" "traffic_lights s0 = traffic_lights s"
    by (simp_all add: s0_def clear_override_def)
  obtain s' where s': "normal_selection s0 = Inr s'"
    "vehicle_counts s0 \<noteq> [] \<Longrightarrow>
           \<exists>sel \<in> set (map fst (vehicle_counts s0)).
             traffic_lights s' = set_lights (map fst (vehicle_counts s0)) sel (traffic_lights s0)"
    by (rule normal_selection_summary[of s0]) blast
  from s'(2) a obtain sel where sel: "sel \<in> set (map fst (vehicle_counts s))"
    "traffic_lights s' = set_lights (map fst (vehicle_counts s)) sel (traffic_lights s)"
    unfolding s0 by blast
  have "one_green (traffic_lights s') sel"
    unfolding sel(2) using sel(1) a by (intro one_green_set_lights) auto
  moreover have "update_traffic_signals_step t s = Inr s'"
    using a s'(1) by (simp add: step_no_hold s0_def)
  ultimately show "\<exists>s' g. update_traffic_signals_step t s = Inr s' \<and>
              g \<in> set (map fst (vehicle_counts s)) \<and> one_green (traffic_lights s') g"
    using sel(1) by blast
next
  assume a: "\<not> hold_in_force t s \<and> vehicle_counts s = []"
  then show "\<exists>s'. update_traffic_signals_step t s = Inr s' \<and>
            traffic_lights s' = traffic_lights s"
    by (simp add: step_no_hold normal_selection_empty clear_override_def)
qed

theorem C1_witness:
  "hold_in_force 105 hold_state \<and>
   (\<exists>s'. update_traffic_signals_step 105 hold_state = Inr s' \<and>
         one_green (traffic_lights s') (Some ''B'')) \<and>
   \<not> hold_in_force 0 busy_state \<and> vehicle_counts busy_state \<noteq> [] \<and>
   dom (traffic_lights busy_state) \<subseteq> set (map fst (vehicle_counts busy_state)) \<and>
   (\<exists>s' g. update_traffic_signals_step 0 busy_state = Inr s' \<and>
           g \<in> set (map fst (vehicle_counts busy_state)) \<and> one_green (traffic_lights s') g) \<and>
   \<not> hold_in_force 0 initial_state \<and> vehicle_counts initial_state = [] \<and>
   (\<exists>s'. update_traffic_signals_step 0 initial_state = Inr s' \<and>
         traffic_lights s' = traffic_lights initial_state)"
proof -
  have h1: "hold_in_force 105 hold_state"
    by (simp add: busy_state_def hold_state_def hold_in_force_def one_green_def model_defs)
  have c1: "cam_id (emergency_override hold_state) = Some ''B''"
    by (simp add: busy_state_def hold_state_def hold_in_force_def one_green_def model_defs)
  have h2: "\<not> hold_in_force 0 busy_state \<and> vehicle_counts busy_state \<noteq> [] \<and>
      dom (traffic_lights busy_state) \<subseteq> set (map fst (vehicle_counts busy_state))"
    by (simp add: busy_state_def hold_state_def hold_in_force_def one_green_def model_defs)
  have h3: "\<not> hold_in_force 0 initial_state \<and> vehicle_counts initial_state = []"
    by (simp add: busy_state_def hold_state_def hold_in_force_def one_green_def model_defs)
  show ?thesis
    using C1_one_green[of "Some ''B''" 100 hold_state 105]
      C1_one_green[of "Some ''B''" 100 busy_state 0]
      C1_one_green[of "Some ''B''" 100 initial_state 0] h1 h2 h3
    unfolding c1 by blast
qed

text \<open>
  Claim C1 as stated fails. The scheduler's iteration on the initial state (no lane has
  published a count yet) idles and leaves the colour table empty, so no lane is GREEN.
  And a lane that is in the colour table without a published count keeps its colour:
  when the worker of \<open>X\<close> activates an emergency and stops on a detector exception
  before publishing, the first iteration after the hold gives \<open>A\<close> the green while
  \<open>X\<close> is still GREEN.
\<close>

theorem C1_counterexample:
  "update_traffic_signals_step 0 initial_state = Inr initial_state \<and>
   dom (traffic_lights initial_state) = {} \<and>
   traffic_lights
     (run [Frame (Some ''X'') failed_emergency_frame, Frame (Some ''A'') two_vehicle_frame,
           Tick 130] initial_state) (Some ''X'') = Some GREEN \<and>
   traffic_lights
     (run [Frame (Some ''X'') failed_emergency_frame, Frame (Some ''A'') two_vehicle_frame,
           Tick 130] initial_state) (Some ''A'') = Some GREEN"
  by (simp add: failed_emergency_frame_def two_vehicle_frame_def empty_frame_def model_defs)

section \<open>C2: fairness forcing\<close>

text \<open>
  Claim C2, as the code has it. In a scheduler iteration without an emergency hold, when
  some lane's occupancy is at least \<open>LOW_TRAFFIC_THRESHOLD\<close> and the lane cycle already
  names exactly the lanes with a published count (so the counters are not reset on this
  iteration): if \<open>l\<close> is the first lane in scan order whose counter is at least
  \<open>WAIT_LIMIT\<close>, and its identifier is a non-empty string, then \<open>l\<close> is GREEN after the
  iteration and every other lane with a published count is RED, whatever the counts.
\<close>

theorem C2_fairness_forced:
  assumes "\<not> hold_in_force t s"
    and "\<not> list_all (\<lambda>n. n < LOW_TRAFFIC_THRESHOLD) (map snd (vehicle_counts s))"
    and "lane_cycle s \<noteq> []"
    and "set (lane_cycle s) = set (map fst (vehicle_counts s))"
    and "find (\<lambda>c. WAIT_LIMIT \<le> lane_priority s c) (map fst (vehicle_counts s)) = Some l"
    and "truthy l"
  shows "\<exists>s'. update_traffic_signals_step t s = Inr s' \<and>
           traffic_lights s' l = Some GREEN \<and>
           (\<forall>c \<in> set (map fst (vehicle_counts s)). c \<noteq> l \<longrightarrow> traffic_lights s' c = Some RED)"
proof -
  define s0 where "s0 = (if active (emergency_override s) then clear_override s else s)"
  have s0: "vehicle_counts s0 = vehicle_counts s" "lane_cycle s0 = lane_cycle s"
    "lane_priority s0 = lane_priority s"
    by (simp_all add: s0_def clear_override_def)
  have keep: "rebuild_lane_cycle (map fst (vehicle_counts s0)) s0 = s0"
    using assms(3,4) by (simp add: rebuild_lane_cycle_def s0)
  have hi: "\<not> list_all (\<lambda>n. n < LOW_TRAFFIC_THRESHOLD) (map snd (vehicle_counts s0))"
    using assms(2) by (simp add: s0)
  have fg: "forced_green (map fst (vehicle_counts s0)) (lane_priority s0) = l"
    using assms(5) by (simp add: forced_green_def s0)
  from normal_selection_high[OF hi] obtain sel s1 where
    *: "s1 = rebuild_lane_cycle (map fst (vehicle_counts s0)) s0"
       "truthy (forced_green (map fst (vehicle_counts s0)) (lane_priority s1)) \<Longrightarrow>
           sel = forced_green (map fst (vehicle_counts s0)) (lane_priority s1)"
       "normal_selection s0 =
           Inr (s1\<lparr>lane_priority :=
                     update_priority (map fst (vehicle_counts s0)) sel (lane_priority s1),
                   traffic_lights :=
                     set_lights (map fst (vehicle_counts s0)) sel (traffic_lights s0)\<rparr>)"
    by metis
  have "sel = l" using *(2) assms(6) fg unfolding *(1) keep by simp
  moreover have "l \<in> set (map fst (vehicle_counts s))"
    using find_mem[OF assms(5)] by simp
  moreover have "update_traffic_signals_step t s = normal_selection s0"
    using assms(1) by (simp add: step_no_hold s0_def)
  ultimately show ?thesis
    using *(3) by (simp add: set_lights_apply s0)
qed

theorem C2_witness:
  "\<not> hold_in_force 0 busy_state \<and>
   \<not> list_all (\<lambda>n. n < LOW_TRAFFIC_THRESHOLD) (map snd (vehicle_counts busy_state)) \<and>
   find (\<lambda>c. WAIT_LIMIT \<le> lane_priority busy_state c) (map fst (vehicle_counts busy_state))
     = Some (Some ''B'') \<and>
   (\<exists>s'. update_traffic_signals_step 0 busy_state = Inr s' \<and>
         traffic_lights s' (Some ''B'') = Some GREEN \<and>
         (\<forall>c \<in> set (map fst (vehicle_counts busy_state)).
            c \<noteq> Some ''B'' \<longrightarrow> traffic_lights s' c = Some RED))"
proof -
  have h1: "\<not> hold_in_force 0 busy_state"
    by (simp add: busy_state_def hold_in_force_def model_defs)
  have h2: "\<not> list_all (\<lambda>n. n < LOW_TRAFFIC_THRESHOLD) (map snd (vehicle_counts busy_state))"
    by (simp add: busy_state_def hold_in_force_def model_defs)
  have h3: "lane_cycle busy_state \<noteq> []"
    by (simp add: busy_state_def hold_in_force_def model_defs)
  have h4: "set (lane_cycle busy_state) = set (map fst (vehicle_counts busy_state))"
    by (simp add: busy_state_def hold_in_force_def model_defs)
  have h5: "find (\<lambda>c. WAIT_LIMIT \<le> lane_priority busy_state c)
              (map fst (vehicle_counts busy_state)) = Some (Some ''B'')"
    by (simp add: busy_state_def hold_in_force_def model_defs)
  have h6: "truthy (Some ''B'')" by (simp add: truthy_def)
  show ?thesis
    using C2_fairness_forced[OF h1 h2 h3 h4 h5 h6] h1 h2 h5 by blast
qed

text \<open>
  Claim C2 as stated fails when every occupancy is below the threshold: the low-traffic
  test of line 215 comes first and selects by round robin. After the run
  \<open>fairness_events\<close> lane \<open>B\<close> has counter 3 and both counts are 0; the next
  iteration gives the green to \<open>A\<close>.
\<close>

theorem C2_counterexample:
  "vehicle_counts (run fairness_events initial_state) = [(Some ''A'', 0), (Some ''B'', 0)] \<and>
   \<not> active (emergency_override (run fairness_events initial_state)) \<and>
   lane_priority (run fairness_events initial_state) (Some ''A'') = 0 \<and>
   lane_priority (run fairness_events initial_state) (Some ''B'') = 3 \<and>
   traffic_lights (run (fairness_events @ [Tick 30]) initial_state) (Some ''A'') = Some GREEN \<and>
   traffic_lights (run (fairness_events @ [Tick 30]) initial_state) (Some ''B'') = Some RED"
  by (simp add: fairness_events_def two_vehicle_frame_def empty_frame_def model_defs)

section \<open>C3: priority counters\<close>

text \<open>
  Claim C3, as the code has it. In a scheduler iteration without an emergency hold and
  with at least one published lane, there is a selected lane \<open>sel\<close> among the published
  lanes: it is the GREEN one, every other published lane is RED, and its counter is 0
  afterwards. The counter of every other lane starts from its previous value (from 0 when
  this iteration rebuilds the lane cycle, which resets all counters) and is incremented by
  1 exactly when the lane has a published count and the iteration is not a round-robin
  one; in a round-robin iteration (every occupancy below \<open>LOW_TRAFFIC_THRESHOLD\<close>) the
  other counters are not incremented.
\<close>

theorem C3_priority_counters:
  assumes "\<not> hold_in_force t s"
    and "vehicle_counts s \<noteq> []"
    and "distinct (map fst (vehicle_counts s))"
  shows "\<exists>s' sel. update_traffic_signals_step t s = Inr s' \<and>
           sel \<in> set (map fst (vehicle_counts s)) \<and>
           traffic_lights s' sel = Some GREEN \<and>
           (\<forall>c \<in> set (map fst (vehicle_counts s)).
              c \<noteq> sel \<longrightarrow> traffic_lights s' c = Some RED) \<and>
           lane_priority s' sel = 0 \<and>
           (\<forall>c. c \<noteq> sel \<longrightarrow>
              lane_priority s' c =
                (if lane_cycle s = [] \<or> set (lane_cycle s) \<noteq> set (map fst (vehicle_counts s))
                 then 0 else lane_priority s c) +
                (if c \<in> set (map fst (vehicle_counts s)) \<and>
                    \<not> list_all (\<lambda>n. n < LOW_TRAFFIC_THRESHOLD) (map snd (vehicle_counts s))
                 then 1 else 0))"
proof -
  define s0 where "s0 = (if active (emergency_override s) then clear_override s else s)"
  have s0: "vehicle_counts s0 = vehicle_counts s" "lane_cycle s0 = lane_cycle s"
    "lane_priority s0 = lane_priority s"
    by (simp_all add: s0_def clear_override_def)
  have step: "update_traffic_signals_step t s = normal_selection s0"
    using assms(1) by (simp add: step_no_hold s0_def)
  define lanes where "lanes = map fst (vehicle_counts s)"
  have prev: "lane_priority (rebuild_lane_cycle lanes s0) c =
      (if lane_cycle s = [] \<or> set (lane_cycle s) \<noteq> set lanes then 0 else lane_priority s c)" for c
    by (simp add: rebuild_lane_cycle_def s0)
  show ?thesis
  proof (cases "list_all (\<lambda>n. n < LOW_TRAFFIC_THRESHOLD) (map snd (vehicle_counts s))")
    case True
    then have low: "list_all (\<lambda>n. n < LOW_TRAFFIC_THRESHOLD) (map snd (vehicle_counts s0))"
      by (simp add: s0)
    have ne: "vehicle_counts s0 \<noteq> []" using assms(2) by (simp add: s0)
    from normal_selection_low[OF ne low] obtain sel s1 where
      *: "s1 = rebuild_lane_cycle (map fst (vehicle_counts s0)) s0"
         "sel \<in> set (map fst (vehicle_counts s0))"
         "normal_selection s0 =
           Inr (s1\<lparr>current_index := current_index s1 + 1,
                   lane_priority := (lane_priority s1)(sel := 0),
                   traffic_lights :=
                     set_lights (map fst (vehicle_counts s0)) sel (traffic_lights s0)\<rparr>)"
      by metis
    define s' where "s' = s1\<lparr>current_index := current_index s1 + 1,
                   lane_priority := (lane_priority s1)(sel := 0),
                   traffic_lights :=
                     set_lights (map fst (vehicle_counts s0)) sel (traffic_lights s0)\<rparr>"
    have "update_traffic_signals_step t s = Inr s'"
      by (simp add: step *(3) s'_def)
    moreover have "sel \<in> set (map fst (vehicle_counts s))"
      using *(2) by (simp add: s0)
    moreover have "traffic_lights s' sel = Some GREEN"
      using *(2) by (simp add: s'_def set_lights_apply)
    moreover have "\<forall>c \<in> set (map fst (vehicle_counts s)).
              c \<noteq> sel \<longrightarrow> traffic_lights s' c = Some RED"
      by (simp add: s'_def set_lights_apply s0)
    moreover have "lane_priority s' sel = 0"
      by (simp add: s'_def)
    moreover have "c \<noteq> sel \<longrightarrow> lane_priority s' c =
                (if lane_cycle s = [] \<or> set (lane_cycle s) \<noteq> set (map fst (vehicle_counts s))
                 then 0 else lane_priority s c) +
                (if c \<in> set (map fst (vehicle_counts s)) \<and>
                    \<not> list_all (\<lambda>n. n < LOW_TRAFFIC_THRESHOLD) (map snd (vehicle_counts s))
                 then 1 else 0)" for c
      using True prev[of c] by (simp add: s'_def *(1) s0 lanes_def)
    ultimately show ?thesis by blast
  next
    case False
    then have hi: "\<not> list_all (\<lambda>n. n < LOW_TRAFFIC_THRESHOLD) (map snd (vehicle_counts s0))"
      by (simp add: s0)
    from normal_selection_high[OF hi] obtain sel s1 where
      *: "s1 = rebuild_lane_cycle (map fst (vehicle_counts s0)) s0"
         "sel \<in> set (map fst (vehicle_counts s0))"
         "normal_selection s0 =
           Inr (s1\<lparr>lane_priority :=
                     update_priority (map fst (vehicle_counts s0)) sel (lane_priority s1),
                   traffic_lights :=
                     set_lights (map fst (vehicle_counts s0)) sel (traffic_lights s0)\<rparr>)"
      by metis
    have up: "update_priority lanes sel (lane_priority s1) c =
        (if c \<in> set lanes then (if c = sel then 0 else lane_priority s1 c + 1)
         else lane_priority s1 c)" for c
      using assms(3) by (simp add: update_priority_in update_priority_notin lanes_def)
    define s' where "s' = s1\<lparr>lane_priority :=
                     update_priority (map fst (vehicle_counts s0)) sel (lane_priority s1),
                   traffic_lights :=
                     set_lights (map fst (vehicle_counts s0)) sel (traffic_lights s0)\<rparr>"
    have mem: "sel \<in> set lanes"
      using *(2) by (simp add: s0 lanes_def)
    have "update_traffic_signals_step t s = Inr s'"
      by (simp add: step *(3) s'_def)
    moreover have "traffic_lights s' sel = Some GREEN"
      using *(2) by (simp add: s'_def set_lights_apply)
    moreover have "\<forall>c \<in> set (map fst (vehicle_counts s)).
              c \<noteq> sel \<longrightarrow> traffic_lights s' c = Some RED"
      by (simp add: s'_def set_lights_apply s0)
    moreover have "lane_priority s' sel = 0"
      using mem by (simp add: s'_def s0 lanes_def[symmetric] up)
    moreover have "c \<noteq> sel \<longrightarrow> lane_priority s' c =
                (if lane_cycle s = [] \<or> set (lane_cycle s) \<noteq> set (map fst (vehicle_counts s))
                 then 0 else lane_priority s c) +
                (if c \<in> set (map fst (vehicle_counts s)) \<and>
                    \<not> list_all (\<lambda>n. n < LOW_TRAFFIC_THRESHOLD) (map snd (vehicle_counts s))
                 then 1 else 0)" for c
      using False prev[of c]
      by (simp add: s'_def s0 lanes_def[symmetric] up) (simp add: *(1) s0 lanes_def[symmetric])
    ultimately show ?thesis using mem unfolding lanes_def by blast
  qed
qed

theorem C3_witness:
  "\<not> hold_in_force 0 busy_state \<and> vehicle_counts busy_state \<noteq> [] \<and>
   distinct (map fst (vehicle_counts busy_state)) \<and>
   \<not> list_all (\<lambda>n. n < LOW_TRAFFIC_THRESHOLD) (map snd (vehicle_counts busy_state)) \<and>
   (\<exists>s' sel. update_traffic_signals_step 0 busy_state = Inr s' \<and>
           sel \<in> set (map fst (vehicle_counts busy_state)) \<and>
           traffic_lights s' sel = Some GREEN \<and>
           (\<forall>c \<in> set (map fst (vehicle_counts busy_state)).
              c \<noteq> sel \<longrightarrow> traffic_lights s' c = Some RED) \<and>
           lane_priority s' sel = 0 \<and>
           (\<forall>c. c \<noteq> sel \<longrightarrow>
              lane_priority s' c =
                (if lane_cycle busy_state = [] \<or>
                    set (lane_cycle busy_state) \<noteq> set (map fst (vehicle_counts busy_state))
                 then 0 else lane_priority busy_state c) +
                (if c \<in> set (map fst (vehicle_counts busy_state)) \<and>
                    \<not> list_all (\<lambda>n. n < LOW_TRAFFIC_THRESHOLD)
                        (map snd (vehicle_counts busy_state))
                 then 1 else 0))) \<and>
   \<not> hold_in_force 0 calm_state \<and> vehicle_counts calm_state \<noteq> [] \<and>
   distinct (map fst (vehicle_counts calm_state)) \<and>
   list_all (\<lambda>n. n < LOW_TRAFFIC_THRESHOLD) (map snd (vehicle_counts calm_state)) \<and>
   (\<exists>s' sel. update_traffic_signals_step 0 calm_state = Inr s' \<and>
           sel \<in> set (map fst (vehicle_counts calm_state)) \<and>
           traffic_lights s' sel = Some GREEN \<and>
           (\<forall>c \<in> set (map fst (vehicle_counts calm_state)).
              c \<noteq> sel \<longrightarrow> traffic_lights s' c = Some RED) \<and>
           lane_priority s' sel = 0 \<and>
           (\<forall>c. c \<noteq> sel \<longrightarrow>
              lane_priority s' c =
                (if lane_cycle calm_state = [] \<or>
                    set (lane_cycle calm_state) \<noteq> set (map fst (vehicle_counts calm_state))
                 then 0 else lane_priority calm_state c) +
                (if c \<in> set (map fst (vehicle_counts calm_state)) \<and>
                    \<not> list_all (\<lambda>n. n < LOW_TRAFFIC_THRESHOLD)
                        (map snd (vehicle_counts calm_state))
                 then 1 else 0)))"
proof -
  have h1: "\<not> hold_in_force 0 busy_state"
    by (simp add: busy_state_def calm_state_def hold_in_force_def model_defs)
  have h2: "vehicle_counts busy_state \<noteq> []"
    by (simp add: busy_state_def calm_state_def hold_in_force_def model_defs)
  have h3: "distinct (map fst (vehicle_counts busy_state))"
    by (simp add: busy_state_def calm_state_def hold_in_force_def model_defs)
  have h4: "\<not> list_all (\<lambda>n. n < LOW_TRAFFIC_THRESHOLD) (map snd (vehicle_counts busy_state))"
    by (simp add: busy_state_def calm_state_def hold_in_force_def model_defs)
  have k1: "\<not> hold_in_force 0 calm_state"
    by (simp add: busy_state_def calm_state_def hold_in_force_def model_defs)
  have k2: "vehicle_counts calm_state \<noteq> []"
    by (simp add: busy_state_def calm_state_def hold_in_force_def model_defs)
  have k3: "distinct (map fst (vehicle_counts calm_state))"
    by (simp add: busy_state_def calm_state_def hold_in_force_def model_defs)
  have k4: "list_all (\<lambda>n. n < LOW_TRAFFIC_THRESHOLD) (map snd (vehicle_counts calm_state))"
    by (simp add: busy_state_def calm_state_def hold_in_force_def model_defs)
  show ?thesis
    using C3_priority_counters[OF h1 h2 h3] C3_priority_counters[OF k1 k2 k3]
      h1 h2 h3 h4 k1 k2 k3 k4
    by (intro conjI) assumption+
qed

text \<open>
  Claim C3 as stated fails in a round-robin iteration: with both lanes at occupancy 0 the
  scheduler selects \<open>A\<close>, and the counter of \<open>B\<close> is 0 before and 0 after.
\<close>

theorem C3_counterexample:
  "vehicle_counts (run low_traffic_events initial_state) = [(Some ''A'', 0), (Some ''B'', 0)] \<and>
   \<not> active (emergency_override (run low_traffic_events initial_state)) \<and>
   lane_priority (run low_traffic_events initial_state) (Some ''B'') = 0 \<and>
   traffic_lights (run (low_traffic_events @ [Tick 0]) initial_state) (Some ''A'') = Some GREEN \<and>
   traffic_lights (run (low_traffic_events @ [Tick 0]) initial_state) (Some ''B'') = Some RED \<and>
   lane_priority (run (low_traffic_events @ [Tick 0]) initial_state) (Some ''B'') = 0"
  by (simp add: low_traffic_events_def empty_frame_def model_defs)

section \<open>C4: emergency hold and expiry\<close>

text \<open>
  Claim C4. While an override is active and less than \<open>EMERGENCY_HOLD_TIME\<close> has
  elapsed, an iteration sets the override lane GREEN and every other lane of the table
  RED and changes nothing else: the priority counters, and the rest of the state, are as
  before. On an iteration at which the override is active and the hold time has elapsed,
  the override is cleared (\<open>active = False\<close>, \<open>cam_id = None\<close>) and the result is that
  of the normal lane selection run on the state with the override cleared.
\<close>

theorem C4_emergency_hold:
  "(hold_in_force t s \<longrightarrow>
      (\<exists>s'. update_traffic_signals_step t s = Inr s' \<and>
            traffic_lights s' (cam_id (emergency_override s)) = Some GREEN \<and>
            (\<forall>c \<in> dom (traffic_lights s').
               c \<noteq> cam_id (emergency_override s) \<longrightarrow> traffic_lights s' c = Some RED) \<and>
            lane_priority s' = lane_priority s \<and>
            s' = s\<lparr>traffic_lights := traffic_lights s'\<rparr>)) \<and>
   (active (emergency_override s) \<and> \<not> hold_in_force t s \<longrightarrow>
      (\<exists>s'. update_traffic_signals_step t s = Inr s' \<and>
            \<not> active (emergency_override s') \<and> cam_id (emergency_override s') = None \<and>
            normal_selection (clear_override s) = Inr s'))"
proof (intro conjI impI)
  assume h: "hold_in_force t s"
  have "one_green ((all_red (traffic_lights s))(cam_id (emergency_override s) \<mapsto> GREEN))
          (cam_id (emergency_override s))"
    by (rule one_green_all_red)
  then show "\<exists>s'. update_traffic_signals_step t s = Inr s' \<and>
            traffic_lights s' (cam_id (emergency_override s)) = Some GREEN \<and>
            (\<forall>c \<in> dom (traffic_lights s').
               c \<noteq> cam_id (emergency_override s) \<longrightarrow> traffic_lights s' c = Some RED) \<and>
            lane_priority s' = lane_priority s \<and>
            s' = s\<lparr>traffic_lights := traffic_lights s'\<rparr>"
    unfolding step_hold[OF h] one_green_def by simp
next
  assume a: "active (emergency_override s) \<and> \<not> hold_in_force t s"
  obtain s' where s': "normal_selection (clear_override s) = Inr s'"
    "emergency_override s' = emergency_override (clear_override s)"
    by (rule normal_selection_summary[of "clear_override s"]) blast
  have "update_traffic_signals_step t s = Inr s'"
    using a s'(1) by (simp add: step_no_hold)
  then show "\<exists>s'. update_traffic_signals_step t s = Inr s' \<and>
            \<not> active (emergency_override s') \<and> cam_id (emergency_override s') = None \<and>
            normal_selection (clear_override s) = Inr s'"
    using s' by (simp add: clear_override_def)
qed

theorem C4_witness:
  "hold_in_force 105 hold_state \<and>
   (\<exists>s'. update_traffic_signals_step 105 hold_state = Inr s' \<and>
         traffic_lights s' (Some ''B'') = Some GREEN \<and>
         traffic_lights s' (Some ''A'') = Some RED \<and>
         lane_priority s' = lane_priority hold_state) \<and>
   active (emergency_override hold_state) \<and> \<not> hold_in_force 120 hold_state \<and>
   (\<exists>s'. update_traffic_signals_step 120 hold_state = Inr s' \<and>
         \<not> active (emergency_override s') \<and> cam_id (emergency_override s') = None \<and>
         normal_selection (clear_override hold_state) = Inr s')"
proof -
  have h1: "hold_in_force 105 hold_state"
    by (simp add: busy_state_def hold_state_def hold_in_force_def clear_override_def model_defs)
  have h2: "active (emergency_override hold_state) \<and> \<not> hold_in_force 120 hold_state"
    by (simp add: busy_state_def hold_state_def hold_in_force_def clear_override_def model_defs)
  have c1: "cam_id (emergency_override hold_state) = Some ''B''"
    by (simp add: busy_state_def hold_state_def hold_in_force_def clear_override_def model_defs)
  from C4_emergency_hold[of 105 hold_state] h1 obtain s' where
    *: "update_traffic_signals_step 105 hold_state = Inr s'"
       "traffic_lights s' (Some ''B'') = Some GREEN"
       "\<forall>c \<in> dom (traffic_lights s'). c \<noteq> Some ''B'' \<longrightarrow> traffic_lights s' c = Some RED"
       "lane_priority s' = lane_priority hold_state"
    unfolding c1 by blast
  have "Some ''A'' \<in> dom (traffic_lights s')"
    using *(1)
      by (auto simp: busy_state_def hold_state_def hold_in_force_def clear_override_def
            model_defs)
  then have "traffic_lights s' (Some ''A'') = Some RED" using *(3) by simp
  then show ?thesis
    using * h1 h2 C4_emergency_hold[of 120 hold_state] by blast
qed

section \<open>C5: one violation record per lane and vehicle\<close>

text \<open>
  Claim C5. In every run of worker frames, source ends and scheduler iterations from the
  initial state, every pair of a lane and a vehicle identifier occurs at most once among
  the violation records created.
\<close>

theorem C5_one_record_per_vehicle:
  "count_list (violations (run es initial_state)) (c, v) \<le> 1"
proof -
  have "flagged_log initial_state"
    by (simp add: flagged_log_def initial_state_def)
  then have "flagged_log (run es initial_state)"
    by (rule run_flagged_log)
  then have "distinct (violations (run es initial_state))"
    by (simp add: flagged_log_def)
  then show ?thesis
    by (rule distinct_count_le_1)
qed

theorem C5_witness:
  "violations (run repeat_crossing_events initial_state) = [(Some ''A'', 7)] \<and>
   count_list (violations (run repeat_crossing_events initial_state)) (Some ''A'', 7) \<le> 1"
proof -
  have "violations (run repeat_crossing_events initial_state) = [(Some ''A'', 7)]"
    by (simp add: repeat_crossing_events_def vehicle_frame_def empty_frame_def model_defs)
  then show ?thesis
    using C5_one_record_per_vehicle[of repeat_crossing_events "Some ''A''" 7] by simp
qed

section \<open>C6: the violation test\<close>



section \<open>C7: the status query\<close>

text \<open>
  Claim C7 fails on the code. The worker of \<open>CAM1\<close> activates an emergency at time 100:
  the override of the processor is active for \<open>CAM1\<close>. The status query at time 105
  reads the dictionary of \<open>main.py\<close>, which nothing writes, and answers inactive with 0
  seconds remaining.
\<close>

theorem C7_status_reads_own_copy:
  "active (emergency_override
             (processor (run_program [Frame (Some ''CAM1'') emergency_frame] initial_program))) \<and>
   cam_id (emergency_override
             (processor (run_program [Frame (Some ''CAM1'') emergency_frame] initial_program)))
     = Some ''CAM1'' \<and>
   timestamp (emergency_override
             (processor (run_program [Frame (Some ''CAM1'') emergency_frame] initial_program)))
     = 100 \<and>
   get_emergency_status 105 (run_program [Frame (Some ''CAM1'') emergency_frame] initial_program)
     = \<lparr>status_active = False, status_cam_id = None, remaining_time = 0\<rparr>"
  by (simp add: get_emergency_status_def run_program_def initial_program_def
        emergency_frame_def empty_frame_def model_defs)

theorem C7_witness:
  "status_active
     (get_emergency_status 105
        (run_program [Frame (Some ''CAM1'') emergency_frame] initial_program)) = False \<and>
   remaining_time
     (get_emergency_status 105
        (run_program [Frame (Some ''CAM1'') emergency_frame] initial_program)) = 0"
  using C7_status_reads_own_copy by simp

section \<open>C8: failure of the violation sink\<close>




section \<open>C9: failure of the tracker\<close>



section \<open>C10: a lane without a colour\<close>

text \<open>
  Claim C10. For a lane that is absent from the colour table the worker reads RED: the
  violation test is then the crossing test together with the not-yet-flagged test, and it
  gives what it would give with the lane's colour set to RED. So a vehicle that crosses
  the line of such a lane and was not flagged before is flagged, and its record created,
  when the sink calls return.
\<close>

theorem C10_absent_color_is_red:
  assumes "traffic_lights s c = None"
  shows "signal_color s c = RED \<and>
         (violation_signaled s c y obj \<longleftrightarrow>
            (\<exists>last. vehicle_last_positions s c (obj_id obj) = Some last \<and> last < y) \<and>
            y \<le> current_y obj \<and> obj_id obj \<notin> violated_ids s c) \<and>
         violation_signaled s c y obj =
           violation_signaled (s\<lparr>traffic_lights := (traffic_lights s)(c \<mapsto> RED)\<rparr>) c y obj \<and>
         ((\<exists>last. vehicle_last_positions s c (obj_id obj) = Some last \<and> last < y) \<and>
          y \<le> current_y obj \<and> obj_id obj \<notin> violated_ids s c \<and>
          imwrite f (obj_id obj) = Inr b \<and> log_violation f (obj_id obj) = None \<longrightarrow>
            obj_id obj \<in> violated_ids (snd (process_object c f y s obj)) c \<and>
            violations (snd (process_object c f y s obj)) = violations s @ [(c, obj_id obj)])"
proof -
  have col: "signal_color s c = RED"
    using assms by (simp add: signal_color_def)
  have test: "violation_signaled s c y obj \<longleftrightarrow>
            (\<exists>last. vehicle_last_positions s c (obj_id obj) = Some last \<and> last < y) \<and>
            y \<le> current_y obj \<and> obj_id obj \<notin> violated_ids s c"
    using col by (auto simp: violation_signaled_def Let_def split: option.splits)
  have same: "violation_signaled s c y obj =
           violation_signaled (s\<lparr>traffic_lights := (traffic_lights s)(c \<mapsto> RED)\<rparr>) c y obj"
    using col by (simp add: violation_signaled_def signal_color_def Let_def)
  have flag: "(\<exists>last. vehicle_last_positions s c (obj_id obj) = Some last \<and> last < y) \<and>
          y \<le> current_y obj \<and> obj_id obj \<notin> violated_ids s c \<and>
          imwrite f (obj_id obj) = Inr b \<and> log_violation f (obj_id obj) = None \<longrightarrow>
            obj_id obj \<in> violated_ids (snd (process_object c f y s obj)) c \<and>
            violations (snd (process_object c f y s obj)) = violations s @ [(c, obj_id obj)]"
    using test by (auto simp: process_object_def Let_def)
  show ?thesis
    by (intro conjI) (rule col, rule test, rule same, rule flag)
qed

theorem C10_witness:
  "traffic_lights seen_below_state (Some ''A'') = None \<and>
   violation_signaled seen_below_state (Some ''A'') 80 crossing_vehicle \<and>
   violations (run [Frame (Some ''A'') (vehicle_frame 10), Frame (Some ''A'') (vehicle_frame 90)]
                 initial_state) = [(Some ''A'', 7)] \<and>
   traffic_lights (run [Frame (Some ''A'') (vehicle_frame 10),
                        Frame (Some ''A'') (vehicle_frame 90)] initial_state) (Some ''A'') = None"
proof -
  have h: "traffic_lights seen_below_state (Some ''A'') = None"
    by (simp add: seen_below_state_def crossing_vehicle_def vehicle_frame_def empty_frame_def
          model_defs)
  have "vehicle_last_positions seen_below_state (Some ''A'') (obj_id crossing_vehicle) = Some 10 \<and>
      current_y crossing_vehicle = 90 \<and>
      obj_id crossing_vehicle \<notin> violated_ids seen_below_state (Some ''A'')"
    by (simp add: seen_below_state_def crossing_vehicle_def vehicle_frame_def empty_frame_def
          model_defs)
  then have "violation_signaled seen_below_state (Some ''A'') 80 crossing_vehicle"
    using C10_absent_color_is_red[OF h, of 80 crossing_vehicle] by simp
  moreover have "violations (run [Frame (Some ''A'') (vehicle_frame 10),
      Frame (Some ''A'') (vehicle_frame 90)] initial_state) = [(Some ''A'', 7)] \<and>
     traffic_lights (run [Frame (Some ''A'') (vehicle_frame 10),
                        Frame (Some ''A'') (vehicle_frame 90)] initial_state) (Some ''A'') = None"
    by (simp add: vehicle_frame_def empty_frame_def model_defs)
  ultimately show ?thesis using h by blast
qed

end
